theory Spec2Isabelle
  imports Complex_Main
begin

section \<open>The adaptive scheduling core of hsk-vocab.py\<close>

text \<open>
  The development embeds the scheduling core of \<^verbatim>\<open>hsk-vocab.py\<close>: the progress
  records and their merge with a stored file, the choice of the next item, the grading
  of an answer and the update of one record by one quiz turn.

  Conventions of the embedding.
  \<^item> A Python \<^verbatim>\<open>float\<close> is a \<^typ>\<open>real\<close>: the arithmetic of the program
    (sums, differences, one quotient, \<^verbatim>\<open>min\<close> and \<^verbatim>\<open>max\<close>) is read without
    rounding. A Python \<^verbatim>\<open>int\<close> is an \<^typ>\<open>int\<close>.
  \<^item> A Python \<^verbatim>\<open>str\<close> is the list of its Unicode code points, each a
    \<^typ>\<open>nat\<close>. Literals of the program are written as such lists, with the text in a
    comment.
  \<^item> \<^verbatim>\<open>str.lower\<close> needs the case tables of the Unicode database, which are not part
    of the program. It is a parameter \<open>lc\<close> of every function that calls it.
  \<^item> An exception is a value of \<open>py_error\<close>; a function that can raise returns a sum.
  \<^item> \<^verbatim>\<open>print\<close>, \<^verbatim>\<open>clear_terminal\<close>, \<^verbatim>\<open>reveal_answer\<close> and
    \<^verbatim>\<open>display_item_metadata\<close> only write to the terminal and are left out, and with
    them the prompt and hint texts of \<^verbatim>\<open>get_quiz_item_data\<close>.
  \<^item> \<^verbatim>\<open>input\<close> reads from a list of typed lines, each paired with the seconds the
    program waited for it (the difference of the two \<^verbatim>\<open>time.time()\<close> readings around
    the call). When the list is empty the call raises (end of input, or an interrupt at
    the prompt).
\<close>

subsection \<open>Strings\<close>

type_synonym ustr = "nat list"

type_synonym lowering = "ustr \<Rightarrow> ustr"

text \<open>
  \<^verbatim>\<open>str.isspace\<close> of one code point, as \<^verbatim>\<open>str.strip()\<close> uses it: U+0009 to U+000D,
  U+001C to U+0020, U+0085, U+00A0, U+1680, U+2000 to U+200A, U+2028, U+2029, U+202F,
  U+205F and U+3000.
\<close>

definition isspace :: "nat \<Rightarrow> bool" where
  "isspace c =
     ((9 \<le> c \<and> c \<le> 13) \<or> (28 \<le> c \<and> c \<le> 32) \<or> c = 133 \<or> c = 160 \<or> c = 5760 \<or>
      (8192 \<le> c \<and> c \<le> 8202) \<or> c = 8232 \<or> c = 8233 \<or> c = 8239 \<or> c = 8287 \<or>
      c = 12288)"

text \<open>\<^verbatim>\<open>s.strip()\<close>: leading and trailing whitespace removed.\<close>

definition strip :: "ustr \<Rightarrow> ustr" where
  "strip s = rev (dropWhile isspace (rev (dropWhile isspace s)))"

text \<open>\<^verbatim>\<open>s.replace(" ", "")\<close>: every U+0020 removed.\<close>

definition remove_spaces :: "ustr \<Rightarrow> ustr" where
  "remove_spaces s = filter (\<lambda>c. c \<noteq> 32) s"

text \<open>
  \<^verbatim>\<open>sub in s\<close> on two strings: \<open>sub\<close> occurs in \<open>s\<close> as a contiguous run, starting
  at some position.
\<close>

fun str_contains :: "ustr \<Rightarrow> ustr \<Rightarrow> bool" where
  "str_contains [] sub = (sub = [])"
| "str_contains (c # cs) sub =
     (if take (length sub) (c # cs) = sub then True else str_contains cs sub)"

text \<open>
  An instance of the parameter \<open>lc\<close> for examples: \<^verbatim>\<open>str.lower\<close> on a string of
  ASCII code points maps \<^verbatim>\<open>A\<close> to \<^verbatim>\<open>Z\<close> (65 to 90) to \<^verbatim>\<open>a\<close> to \<^verbatim>\<open>z\<close> and keeps
  the rest. The code points of Chinese characters have no case and are kept as well.
\<close>

definition ascii_lower :: lowering where
  "ascii_lower s = map (\<lambda>c. if 65 \<le> c \<and> c \<le> 90 then c + 32 else c) s"

subsection \<open>Constants\<close>

definition PENALTY_HINT :: real where "PENALTY_HINT = 1.5"
definition PENALTY_SKIP :: real where "PENALTY_SKIP = 3.0"
definition PENALTY_INCORRECT :: real where "PENALTY_INCORRECT = 4.0"
definition REWARD_STREAK :: real where "REWARD_STREAK = 0.25"
definition REWARD_TIME :: real where "REWARD_TIME = 0.5"
definition REWARD_CORRECT :: real where "REWARD_CORRECT = 1.0"
definition MAX_WEIGHT :: real where "MAX_WEIGHT = 10.0"
definition MIN_WEIGHT :: real where "MIN_WEIGHT = 0.01"

text \<open>The literals \<^verbatim>\<open>"N/A"\<close>, \<^verbatim>\<open>"-q"\<close>, \<^verbatim>\<open>"-s"\<close> and \<^verbatim>\<open>"-h"\<close>.\<close>

definition N_A :: ustr where "N_A = [78, 47, 65]"
definition cmd_quit :: ustr where "cmd_quit = [45, 113]"
definition cmd_skip :: ustr where "cmd_skip = [45, 115]"
definition cmd_hint :: ustr where "cmd_hint = [45, 104]"

subsection \<open>Data\<close>

text \<open>
  The exceptions the modelled code can raise. Reading the progress file can raise a
  \<^verbatim>\<open>json.JSONDecodeError\<close> or an \<^verbatim>\<open>IOError\<close>, which \<^verbatim>\<open>load_progress\<close>
  catches, and others that it does not catch: a \<^verbatim>\<open>UnicodeDecodeError\<close> when the
  bytes of the file are not UTF-8, and a \<^verbatim>\<open>TypeError\<close> when the file decodes to
  something other than a list of objects (the dictionary comprehension raises on it).
\<close>

datatype py_error =
  AttributeError | IndexError | ValueError | ZeroDivisionError | EOFError
  | JSONDecodeError | IOError | UnicodeDecodeError | TypeError

text \<open>
  The session flags that the computations read: \<^verbatim>\<open>g_chinese_to_english\<close> and
  \<^verbatim>\<open>g_random_mode\<close>. The three display flags change printed text only.
\<close>

record flags =
  g_chinese_to_english :: bool
  g_random_mode :: bool

text \<open>
  A vocabulary item is a dictionary read from JSON. A field is \<open>None\<close> when the key is
  missing. The program tests whether \<^verbatim>\<open>pinyin\<close> is a list, so both shapes are kept.
  The other keys of an item are only printed; their values are taken to have the types
  the printing code expects (strings, and a dictionary under \<^verbatim>\<open>measure_word\<close>), so
  that printing does not raise.
\<close>

datatype pinyin_value = PinyinStr ustr | PinyinList "ustr list"

record item =
  simplified :: "ustr option"
  pinyin :: "pinyin_value option"
  english_concise :: "ustr option"

text \<open>
  One progress dictionary, with the seven keys the program writes: a string, two
  counters and a streak that are Python integers, and three numbers.
\<close>

record progress =
  word :: ustr
  weight :: real
  streak :: int
  avg_time :: real
  total_time :: real
  attempts :: int
  correct :: int

text \<open>The status strings \<^verbatim>\<open>"correct"\<close>, \<^verbatim>\<open>"incorrect"\<close>, \<^verbatim>\<open>"skipped"\<close>, \<^verbatim>\<open>"quit"\<close>.\<close>

datatype result = Correct | Incorrect | Skipped | Quit

text \<open>One line typed at a prompt and the seconds waited for it.\<close>

type_synonym typed = "ustr \<times> real"

subsection \<open>Progress functions\<close>

text \<open>\<^verbatim>\<open>w.get('simplified', 'N/A')\<close>\<close>

definition word_char :: "item \<Rightarrow> ustr" where
  "word_char w = (case simplified w of None \<Rightarrow> N_A | Some s \<Rightarrow> s)"

text \<open>The dictionary literal of \<^verbatim>\<open>get_default_progress\<close> and \<^verbatim>\<open>load_progress\<close>.\<close>

definition default_entry :: "ustr \<Rightarrow> progress" where
  "default_entry k =
     \<lparr>word = k, weight = MAX_WEIGHT, streak = 0, avg_time = 0.0, total_time = 0.0,
      attempts = 0, correct = 0\<rparr>"

definition get_default_progress :: "item list \<Rightarrow> progress list" where
  "get_default_progress data = map (\<lambda>w. default_entry (word_char w)) data"

text \<open>
  What the progress file gives when \<^verbatim>\<open>load_progress\<close> reads it: the path does not
  exist; the statements under \<^verbatim>\<open>try\<close> raise (\<^verbatim>\<open>open\<close>, \<^verbatim>\<open>json.load\<close>, or
  the dictionary comprehension on a value that is not a list of objects); or the file
  decodes to a list of objects. An object of the list either has the key \<^verbatim>\<open>word\<close>, and then it is taken to
  be a progress dictionary as \<^verbatim>\<open>save_progress\<close> writes them, or it has not.
  \<^verbatim>\<open>json.dump\<close> and \<^verbatim>\<open>json.load\<close> are the library's: the model takes the decoded
  value of a written file to be the value written.
\<close>

datatype entry = WithWord progress | NoWord

datatype store = NoFile | Unreadable py_error | Contents "entry list"

text \<open>
  The dictionary comprehension \<^verbatim>\<open>{item['word']: item for item in old_prog if 'word' in item}\<close>:
  a later object replaces an earlier one with the same word.
\<close>

definition old_prog_map :: "entry list \<Rightarrow> (ustr \<rightharpoonup> progress)" where
  "old_prog_map old_prog =
     fold (\<lambda>e m. case e of WithWord r \<Rightarrow> m(word r \<mapsto> r) | NoWord \<Rightarrow> m) old_prog Map.empty"

definition load_progress :: "item list \<Rightarrow> store \<Rightarrow> py_error + progress list" where
  "load_progress data st =
     (case st of
        NoFile \<Rightarrow> Inr (get_default_progress data)
      | Unreadable e \<Rightarrow>
          if e = JSONDecodeError \<or> e = IOError then Inr (get_default_progress data)
          else Inl e
      | Contents old_prog \<Rightarrow>
          Inr (map (\<lambda>w. case old_prog_map old_prog (word_char w) of
                          Some r \<Rightarrow> r
                        | None \<Rightarrow> default_entry (word_char w)) data))"

text \<open>
  \<^verbatim>\<open>save_progress\<close>. The write succeeds, or it raises an \<^verbatim>\<open>IOError\<close> that the
  function catches: before the file is opened for writing (the file is as it was), or
  while \<^verbatim>\<open>json.dump\<close> writes (the file holds a truncated text, which no longer
  decodes).
\<close>

datatype writing = Written | OpenFails | DumpFails

definition save_progress :: "progress list \<Rightarrow> writing \<Rightarrow> store \<Rightarrow> store" where
  "save_progress progress_data wr st =
     (case wr of
        Written \<Rightarrow> Contents (map WithWord progress_data)
      | OpenFails \<Rightarrow> st
      | DumpFails \<Rightarrow> Unreadable JSONDecodeError)"

subsection \<open>Quiz logic\<close>

text \<open>
  \<^verbatim>\<open>random.choices(population, weights=weights, k=1)[0]\<close> of the standard library,
  for the value \<open>u\<close> that \<^verbatim>\<open>random()\<close> returns: the running sums of the weights,
  the checks on them, and a binary search (\<^verbatim>\<open>bisect\<close> between 0 and \<open>n - 1\<close>) for
  \<open>u * total\<close>.
\<close>

fun accumulate :: "real list \<Rightarrow> real \<Rightarrow> real list" where
  "accumulate [] acc = []"
| "accumulate (w # ws) acc = (acc + w) # accumulate ws (acc + w)"

function bisect :: "real list \<Rightarrow> real \<Rightarrow> nat \<Rightarrow> nat \<Rightarrow> nat" where
  "bisect a x lo hi =
     (if lo < hi then
        (let mid = (lo + hi) div 2 in
         if x < a ! mid then bisect a x lo mid else bisect a x (mid + 1) hi)
      else lo)"
  by pat_completeness auto
termination
  by (relation "measure (\<lambda>(a, x, lo, hi). hi - lo)") auto

declare bisect.simps [simp del]

definition random_choices :: "nat list \<Rightarrow> real list \<Rightarrow> real \<Rightarrow> py_error + nat" where
  "random_choices population weights u =
     (let cum_weights = accumulate weights 0; n = length population in
      if length cum_weights \<noteq> n then Inl ValueError
      else if cum_weights = [] then Inl IndexError
      else
        (let total = last cum_weights in
         if total \<le> 0 then Inl ValueError
         else Inr (population ! bisect cum_weights (u * total) 0 (n - 1))))"

text \<open>
  \<^verbatim>\<open>get_next_index\<close>, with the global \<^verbatim>\<open>g_in_order_index\<close> passed in and returned
  beside the index. \<^verbatim>\<open>% data_len\<close> raises when \<open>data_len\<close> is 0.
\<close>

definition get_next_index ::
  "flags \<Rightarrow> nat \<Rightarrow> progress list \<Rightarrow> nat \<Rightarrow> real \<Rightarrow> py_error + nat \<times> nat" where
  "get_next_index fl data_len prog g_in_order_index u =
     (if g_random_mode fl then
        (case random_choices [0..<data_len] (map weight prog) u of
           Inl e \<Rightarrow> Inl e
         | Inr selected_index \<Rightarrow> Inr (selected_index, g_in_order_index))
      else if data_len = 0 then Inl ZeroDivisionError
      else Inr (g_in_order_index, (g_in_order_index + 1) mod data_len))"

text \<open>
  \<^verbatim>\<open>get_quiz_item_data\<close>: the list of accepted answers. With a \<^verbatim>\<open>pinyin\<close> list of
  fewer than two entries the program calls \<^verbatim>\<open>replace\<close> on the list, which raises.
\<close>

definition get_quiz_item_data :: "flags \<Rightarrow> lowering \<Rightarrow> item \<Rightarrow> py_error + ustr list" where
  "get_quiz_item_data fl lc it =
     (if g_chinese_to_english fl then
        (let first = lc (case simplified it of None \<Rightarrow> [] | Some s \<Rightarrow> s) in
         case pinyin it of
           Some (PinyinList (p0 # p1 # ps)) \<Rightarrow> Inr [first, lc (remove_spaces p1)]
         | Some (PinyinList _) \<Rightarrow> Inl AttributeError
         | Some (PinyinStr s) \<Rightarrow> Inr [first, lc (remove_spaces s)]
         | None \<Rightarrow> Inr [first, lc (remove_spaces [])])
      else Inr [lc (case english_concise it of None \<Rightarrow> N_A | Some s \<Rightarrow> s)])"

text \<open>
  \<^verbatim>\<open>check_answer\<close>: membership in the list, or containment in its first string
  (\<^verbatim>\<open>answer_list[0]\<close> raises on an empty list).
\<close>

definition check_answer :: "flags \<Rightarrow> ustr \<Rightarrow> ustr list \<Rightarrow> py_error + bool" where
  "check_answer fl user_input answer_list =
     (if g_chinese_to_english fl then Inr (user_input \<in> set answer_list)
      else (case answer_list of
              [] \<Rightarrow> Inl IndexError
            | a # _ \<Rightarrow> Inr (str_contains a user_input)))"

text \<open>
  The last part of \<^verbatim>\<open>run_quiz_for_item\<close>, from the comment "Update time stats
  (always)" to the \<^verbatim>\<open>return\<close>: it runs after the first answer, or after the answer
  that follows a hint. The division of the last assignment raises when \<open>attempts\<close> is
  0 after the increment; the assignments before it have been made by then.
\<close>

definition update_and_check ::
  "flags \<Rightarrow> ustr list \<Rightarrow> ustr \<Rightarrow> real \<Rightarrow> progress \<Rightarrow> (py_error + result) \<times> progress" where
  "update_and_check fl answer inpt elapsed_time prog_item =
     (let p1 = prog_item\<lparr>attempts := attempts prog_item + 1,
                         total_time := total_time prog_item + elapsed_time\<rparr> in
      case check_answer fl inpt answer of
        Inl e \<Rightarrow> (Inl e, p1)
      | Inr ok \<Rightarrow>
          (let p2 =
             (if ok then
                (let p = p1\<lparr>correct := correct p1 + 1, streak := streak p1 + 1\<rparr>;
                     reward = REWARD_CORRECT + REWARD_STREAK * real_of_int (streak p);
                     reward' = (if avg_time p > 0 \<and> elapsed_time < avg_time p
                                then reward + REWARD_TIME else reward)
                 in p\<lparr>weight := max MIN_WEIGHT (weight p - reward')\<rparr>)
              else p1\<lparr>streak := 0,
                      weight := min MAX_WEIGHT (weight p1 + PENALTY_INCORRECT)\<rparr>)
           in if attempts p2 = 0 then (Inl ZeroDivisionError, p2)
              else (Inr (if ok then Correct else Incorrect),
                    p2\<lparr>avg_time := total_time p2 / real_of_int (attempts p2)\<rparr>)))"

text \<open>
  \<^verbatim>\<open>run_quiz_for_item\<close>. It returns the status or the exception, the progress
  dictionary as the call leaves it (the program changes it in place), and the lines not
  yet read. The first line read is the one of "Press Enter To Continue...".
\<close>

definition run_quiz_for_item ::
  "flags \<Rightarrow> lowering \<Rightarrow> item \<Rightarrow> progress \<Rightarrow> typed list
     \<Rightarrow> (py_error + result) \<times> progress \<times> typed list" where
  "run_quiz_for_item fl lc it prog_item ins =
     (case ins of
        [] \<Rightarrow> (Inl EOFError, prog_item, [])
      | _ # ins1 \<Rightarrow>
     (case get_quiz_item_data fl lc it of
        Inl e \<Rightarrow> (Inl e, prog_item, ins1)
      | Inr answer \<Rightarrow>
     (case ins1 of
        [] \<Rightarrow> (Inl EOFError, prog_item, [])
      | (raw, elapsed_time) # ins2 \<Rightarrow>
          (let inpt = lc (strip raw) in
           if inpt = cmd_quit then (Inr Quit, prog_item, ins2)
           else if inpt = cmd_skip then
             (Inr Skipped,
              prog_item\<lparr>weight := min MAX_WEIGHT (weight prog_item + PENALTY_SKIP),
                        streak := 0,
                        attempts := attempts prog_item + 1\<rparr>,
              ins2)
           else if inpt = cmd_hint then
             (let hinted =
                prog_item\<lparr>weight := min MAX_WEIGHT (weight prog_item + PENALTY_HINT)\<rparr>
              in case ins2 of
                   [] \<Rightarrow> (Inl EOFError, hinted, [])
                 | (raw', elapsed') # ins3 \<Rightarrow>
                     (case update_and_check fl answer (lc (strip raw'))
                             (elapsed_time + elapsed') hinted of
                        (r, p) \<Rightarrow> (r, p, ins3)))
           else
             (case update_and_check fl answer inpt elapsed_time prog_item of
                (r, p) \<Rightarrow> (r, p, ins2))))))"

text \<open>
  The loop of \<^verbatim>\<open>main\<close>: choose an index, run the quiz for that item on its progress
  dictionary, and go on until the status is \<^verbatim>\<open>"quit"\<close> or an exception leaves the
  loop. \<open>rnd k\<close> is the value \<^verbatim>\<open>random()\<close> returns in round \<open>k\<close>. The result is
  the exception that ended the loop, if one did, and the progress list as
  \<^verbatim>\<open>save_progress\<close> then receives it. \<^verbatim>\<open>data[index]\<close> and
  \<^verbatim>\<open>progress[index]\<close> raise outside the lists. The counters
  \<^verbatim>\<open>session_correct\<close> and \<^verbatim>\<open>session_attempts\<close> are only printed and left out.
  The entries of the progress list are taken to be distinct objects, as they are
  when the words of the vocabulary are distinct.
\<close>

function quiz_loop ::
  "flags \<Rightarrow> lowering \<Rightarrow> (nat \<Rightarrow> real) \<Rightarrow> item list \<Rightarrow> progress list \<Rightarrow> nat \<Rightarrow> nat
     \<Rightarrow> typed list \<Rightarrow> py_error option \<times> progress list" where
  "quiz_loop fl lc rnd data prog cursor k ins =
     (case get_next_index fl (length data) prog cursor (rnd k) of
        Inl e \<Rightarrow> (Some e, prog)
      | Inr (index, cursor') \<Rightarrow>
          if index < length data \<and> index < length prog then
            (case run_quiz_for_item fl lc (data ! index) (prog ! index) ins of
               (Inl e, p, ins') \<Rightarrow> (Some e, prog[index := p])
             | (Inr Quit, p, ins') \<Rightarrow> (None, prog[index := p])
             | (Inr r, p, ins') \<Rightarrow>
                 quiz_loop fl lc rnd data (prog[index := p]) cursor' (Suc k) ins')
          else (Some IndexError, prog))"
  by pat_completeness auto
termination
  by (relation "measure (\<lambda>(fl, lc, rnd, data, prog, cursor, k, ins). length ins)")
    (auto simp: run_quiz_for_item_def Let_def
          split: list.splits sum.splits if_splits prod.splits)

declare quiz_loop.simps [simp del]

section \<open>Properties\<close>

subsection \<open>Auxiliary facts\<close>

lemma str_contains_iff:
  "str_contains s sub \<longleftrightarrow> (\<exists>pre suf. s = pre @ sub @ suf)"
proof (induction s)
  case Nil
  then show ?case by auto
next
  case (Cons c cs)
  show ?case
  proof
    assume "str_contains (c # cs) sub"
    then consider "take (length sub) (c # cs) = sub" | "str_contains cs sub"
      by (auto split: if_splits)
    then show "\<exists>pre suf. c # cs = pre @ sub @ suf"
    proof cases
      case 1
      then have "c # cs = [] @ sub @ drop (length sub) (c # cs)"
        by (metis append_Nil append_take_drop_id)
      then show ?thesis by blast
    next
      case 2
      then obtain pre suf where "cs = pre @ sub @ suf" using Cons.IH by blast
      then have "c # cs = (c # pre) @ sub @ suf" by simp
      then show ?thesis by blast
    qed
  next
    assume "\<exists>pre suf. c # cs = pre @ sub @ suf"
    then obtain pre suf where eq: "c # cs = pre @ sub @ suf" by blast
    show "str_contains (c # cs) sub"
    proof (cases pre)
      case Nil
      then have "take (length sub) (c # cs) = sub" using eq by simp
      then show ?thesis by simp
    next
      case (Cons a pre')
      then have "cs = pre' @ sub @ suf" using eq by simp
      then have "str_contains cs sub" using Cons.IH by blast
      then show ?thesis by simp
    qed
  qed
qed

lemma strip_whitespace_only:
  assumes "list_all isspace raw"
  shows "strip raw = []"
proof -
  have d: "dropWhile isspace raw = []"
    using assms by (simp add: list_all_iff)
  show ?thesis unfolding strip_def d by simp
qed

lemma rewarded_weight_bounds:
  assumes "w \<le> MAX_WEIGHT" "0 \<le> s" "0 \<le> b"
  shows "MIN_WEIGHT \<le> max MIN_WEIGHT (w - (REWARD_CORRECT + REWARD_STREAK * real_of_int (s + 1) + b))"
    and "max MIN_WEIGHT (w - (REWARD_CORRECT + REWARD_STREAK * real_of_int (s + 1) + b)) \<le> MAX_WEIGHT"
proof -
  have "0 \<le> real_of_int (s + 1)" using assms(2) by simp
  then have "0 \<le> REWARD_CORRECT + REWARD_STREAK * real_of_int (s + 1) + b"
    using assms(3) by (simp add: REWARD_CORRECT_def REWARD_STREAK_def)
  then have "w - (REWARD_CORRECT + REWARD_STREAK * real_of_int (s + 1) + b) \<le> MAX_WEIGHT"
    using assms(1) by linarith
  moreover have "MIN_WEIGHT \<le> MAX_WEIGHT" by (simp add: MIN_WEIGHT_def MAX_WEIGHT_def)
  ultimately show "max MIN_WEIGHT (w - (REWARD_CORRECT + REWARD_STREAK * real_of_int (s + 1) + b)) \<le> MAX_WEIGHT"
    by simp
  show "MIN_WEIGHT \<le> max MIN_WEIGHT (w - (REWARD_CORRECT + REWARD_STREAK * real_of_int (s + 1) + b))"
    by simp
qed

lemma penalised_weight_bounds:
  assumes "MIN_WEIGHT \<le> w" "0 \<le> c"
  shows "MIN_WEIGHT \<le> min MAX_WEIGHT (w + c)" and "min MAX_WEIGHT (w + c) \<le> MAX_WEIGHT"
proof -
  have "MIN_WEIGHT \<le> MAX_WEIGHT" by (simp add: MIN_WEIGHT_def MAX_WEIGHT_def)
  then show "MIN_WEIGHT \<le> min MAX_WEIGHT (w + c)" using assms by simp
  show "min MAX_WEIGHT (w + c) \<le> MAX_WEIGHT" by simp
qed

lemma update_and_check_bounds:
  assumes "MIN_WEIGHT \<le> weight p" "weight p \<le> MAX_WEIGHT" "0 \<le> streak p"
    and "update_and_check fl answer inpt e p = (r, p')"
  shows "MIN_WEIGHT \<le> weight p' \<and> weight p' \<le> MAX_WEIGHT \<and> 0 \<le> streak p'"
proof (cases "check_answer fl inpt answer")
  case (Inl err)
  then show ?thesis using assms by (auto simp: update_and_check_def)
next
  case (Inr ok)
  show ?thesis
  proof (cases ok)
    case True
    have b0: "MIN_WEIGHT \<le> max MIN_WEIGHT (weight p - (REWARD_CORRECT + REWARD_STREAK * real_of_int (streak p + 1) + 0))"
      and b1: "max MIN_WEIGHT (weight p - (REWARD_CORRECT + REWARD_STREAK * real_of_int (streak p + 1) + 0)) \<le> MAX_WEIGHT"
      and t0: "MIN_WEIGHT \<le> max MIN_WEIGHT (weight p - (REWARD_CORRECT + REWARD_STREAK * real_of_int (streak p + 1) + REWARD_TIME))"
      and t1: "max MIN_WEIGHT (weight p - (REWARD_CORRECT + REWARD_STREAK * real_of_int (streak p + 1) + REWARD_TIME)) \<le> MAX_WEIGHT"
      using rewarded_weight_bounds [OF assms(2,3), of 0]
        rewarded_weight_bounds [OF assms(2,3), of REWARD_TIME]
      by (simp_all add: REWARD_TIME_def)
    show ?thesis
      using assms(3,4) Inr True b0 b1 t0 t1
      by (auto simp: update_and_check_def Let_def split: if_splits)
  next
    case False
    have "MIN_WEIGHT \<le> min MAX_WEIGHT (weight p + PENALTY_INCORRECT)"
      and "min MAX_WEIGHT (weight p + PENALTY_INCORRECT) \<le> MAX_WEIGHT"
      using penalised_weight_bounds [OF assms(1), of PENALTY_INCORRECT]
      by (simp_all add: PENALTY_INCORRECT_def)
    then show ?thesis
      using assms(4) Inr False
      by (auto simp: update_and_check_def Let_def split: if_splits)
  qed
qed

lemma run_quiz_bounds:
  assumes "MIN_WEIGHT \<le> weight p" "weight p \<le> MAX_WEIGHT" "0 \<le> streak p"
    and "run_quiz_for_item fl lc it p ins = (r, p', ins')"
  shows "MIN_WEIGHT \<le> weight p' \<and> weight p' \<le> MAX_WEIGHT \<and> 0 \<le> streak p'"
proof -
  have hint: "MIN_WEIGHT \<le> min MAX_WEIGHT (weight p + PENALTY_HINT)"
      "min MAX_WEIGHT (weight p + PENALTY_HINT) \<le> MAX_WEIGHT"
    using penalised_weight_bounds [OF assms(1), of PENALTY_HINT]
    by (simp_all add: PENALTY_HINT_def)
  have skip: "MIN_WEIGHT \<le> min MAX_WEIGHT (weight p + PENALTY_SKIP)"
      "min MAX_WEIGHT (weight p + PENALTY_SKIP) \<le> MAX_WEIGHT"
    using penalised_weight_bounds [OF assms(1), of PENALTY_SKIP]
    by (simp_all add: PENALTY_SKIP_def)
  have direct: "MIN_WEIGHT \<le> weight q \<and> weight q \<le> MAX_WEIGHT \<and> 0 \<le> streak q"
    if "update_and_check fl answer inpt e p = (r', q)" for answer inpt e r' q
    using update_and_check_bounds [OF assms(1,2,3) that] .
  have hinted: "MIN_WEIGHT \<le> weight q \<and> weight q \<le> MAX_WEIGHT \<and> 0 \<le> streak q"
    if "update_and_check fl answer inpt e
          (p\<lparr>weight := min MAX_WEIGHT (weight p + PENALTY_HINT)\<rparr>) = (r', q)"
    for answer inpt e r' q
    using update_and_check_bounds [OF _ _ _ that] hint assms(3) by simp
  show ?thesis
    using assms hint skip
    by (auto simp: run_quiz_for_item_def Let_def
          split: list.splits sum.splits if_splits prod.splits
          dest: direct hinted)
qed

lemma run_quiz_consumes:
  "run_quiz_for_item fl lc it p ins = (Inr r, p', ins') \<Longrightarrow> length ins' < length ins"
  by (auto simp: run_quiz_for_item_def Let_def
        split: list.splits sum.splits if_splits prod.splits)

lemma quiz_loop_step:
  assumes "get_next_index fl (length data) prog cursor (rnd k) = Inr (index, cursor')"
    and "index < length data" "index < length prog"
    and "run_quiz_for_item fl lc (data ! index) (prog ! index) ins = (r, p, ins')"
  shows "quiz_loop fl lc rnd data prog cursor k ins =
    (if r = Inr Correct \<or> r = Inr Incorrect \<or> r = Inr Skipped
     then quiz_loop fl lc rnd data (prog[index := p]) cursor' (Suc k) ins'
     else (case r of Inl e \<Rightarrow> Some e | Inr _ \<Rightarrow> None, prog[index := p]))"
  using assms
  by (subst quiz_loop.simps) (auto split: sum.splits result.splits)

lemma quiz_loop_raise:
  "get_next_index fl (length data) prog cursor (rnd k) = Inl e \<Longrightarrow>
     quiz_loop fl lc rnd data prog cursor k ins = (Some e, prog)"
  by (subst quiz_loop.simps) simp

lemma quiz_loop_outside:
  "get_next_index fl (length data) prog cursor (rnd k) = Inr (index, cursor') \<Longrightarrow>
     \<not> (index < length data \<and> index < length prog) \<Longrightarrow>
     quiz_loop fl lc rnd data prog cursor k ins = (Some IndexError, prog)"
  by (subst quiz_loop.simps) auto

lemma quiz_loop_invariant:
  assumes "\<forall>p\<in>set prog. MIN_WEIGHT \<le> weight p \<and> weight p \<le> MAX_WEIGHT \<and> 0 \<le> streak p"
  shows "\<forall>p\<in>set (snd (quiz_loop fl lc rnd data prog cursor k ins)).
           MIN_WEIGHT \<le> weight p \<and> weight p \<le> MAX_WEIGHT \<and> 0 \<le> streak p"
  using assms
proof (induction ins arbitrary: prog cursor k rule: length_induct)
  case (1 ins)
  let ?ok = "\<lambda>p. MIN_WEIGHT \<le> weight p \<and> weight p \<le> MAX_WEIGHT \<and> 0 \<le> streak p"
  show ?case
  proof (cases "get_next_index fl (length data) prog cursor (rnd k)")
    case (Inl e)
    then show ?thesis using "1.prems" by (simp add: quiz_loop_raise)
  next
    case (Inr ic)
    obtain index cursor' where ic: "ic = (index, cursor')" by (cases ic)
    note next_index = Inr [unfolded ic]
    show ?thesis
    proof (cases "index < length data \<and> index < length prog")
      case False
      then show ?thesis using "1.prems" next_index by (simp add: quiz_loop_outside)
    next
      case True
      obtain r p ins' where run:
        "run_quiz_for_item fl lc (data ! index) (prog ! index) ins = (r, p, ins')"
        by (cases "run_quiz_for_item fl lc (data ! index) (prog ! index) ins")
      have "?ok (prog ! index)" using "1.prems" True by simp
      then have "?ok p" using run_quiz_bounds [OF _ _ _ run] by simp
      then have upd: "\<forall>q\<in>set (prog[index := p]). ?ok q"
        using "1.prems" set_update_subset_insert [of prog index p] by blast
      note step = quiz_loop_step [where rnd = rnd and k = k, OF next_index _ _ run]
      show ?thesis
      proof (cases "r = Inr Correct \<or> r = Inr Incorrect \<or> r = Inr Skipped")
        case False
        then show ?thesis using upd step True by simp
      next
        case goes_on: True
        then obtain res where "r = Inr res" by blast
        then have "length ins' < length ins" using run run_quiz_consumes by blast
        then have "\<forall>q\<in>set (snd (quiz_loop fl lc rnd data (prog[index := p]) cursor' (Suc k) ins')). ?ok q"
          using "1.IH" upd by blast
        then show ?thesis using goes_on step True by simp
      qed
    qed
  qed
qed

subsection \<open>The weight bounds\<close>

text \<open>
  C3. A progress list whose records have their weight between \<open>MIN_WEIGHT\<close> (0.01)
  and \<open>MAX_WEIGHT\<close> (10.0) keeps that property through the whole quiz loop, whatever
  items are chosen, whatever is typed (answers, skips, hints followed by an answer, a
  final quit) and however the loop ends, an exception or the end of the input in the
  middle of a turn included. The same holds for one call of \<open>run_quiz_for_item\<close> on
  one record. The records are those of the data model: their streak is not negative,
  which the loop preserves as well. (A negative streak would make the reward of a
  correct answer negative.)
\<close>

theorem weight_stays_in_bounds:
  "(MIN_WEIGHT \<le> weight p \<and> weight p \<le> MAX_WEIGHT \<and> 0 \<le> streak p \<longrightarrow>
      (let p' = fst (snd (run_quiz_for_item fl lc it p ins))
       in MIN_WEIGHT \<le> weight p' \<and> weight p' \<le> MAX_WEIGHT \<and> 0 \<le> streak p')) \<and>
   (list_all (\<lambda>p. MIN_WEIGHT \<le> weight p \<and> weight p \<le> MAX_WEIGHT \<and> 0 \<le> streak p) prog \<longrightarrow>
      list_all (\<lambda>p. MIN_WEIGHT \<le> weight p \<and> weight p \<le> MAX_WEIGHT \<and> 0 \<le> streak p)
        (snd (quiz_loop fl lc rnd data prog cursor k ins)))"
proof (intro conjI impI)
  assume ok: "MIN_WEIGHT \<le> weight p \<and> weight p \<le> MAX_WEIGHT \<and> 0 \<le> streak p"
  obtain r p' ins' where run: "run_quiz_for_item fl lc it p ins = (r, p', ins')"
    by (cases "run_quiz_for_item fl lc it p ins")
  have "MIN_WEIGHT \<le> weight p' \<and> weight p' \<le> MAX_WEIGHT \<and> 0 \<le> streak p'"
  proof (rule run_quiz_bounds [OF _ _ _ run])
    show "MIN_WEIGHT \<le> weight p" "weight p \<le> MAX_WEIGHT" "0 \<le> streak p"
      using ok by blast+
  qed
  moreover have "fst (snd (run_quiz_for_item fl lc it p ins)) = p'"
    unfolding run by simp
  ultimately show "let p' = fst (snd (run_quiz_for_item fl lc it p ins))
        in MIN_WEIGHT \<le> weight p' \<and> weight p' \<le> MAX_WEIGHT \<and> 0 \<le> streak p'"
    unfolding Let_def by (simp only:)
next
  assume a: "list_all (\<lambda>p. MIN_WEIGHT \<le> weight p \<and> weight p \<le> MAX_WEIGHT \<and> 0 \<le> streak p) prog"
  have "\<forall>p\<in>set prog. MIN_WEIGHT \<le> weight p \<and> weight p \<le> MAX_WEIGHT \<and> 0 \<le> streak p"
    using a unfolding list_all_iff .
  then have "\<forall>p\<in>set (snd (quiz_loop fl lc rnd data prog cursor k ins)).
           MIN_WEIGHT \<le> weight p \<and> weight p \<le> MAX_WEIGHT \<and> 0 \<le> streak p"
    by (rule quiz_loop_invariant)
  then show "list_all (\<lambda>p. MIN_WEIGHT \<le> weight p \<and> weight p \<le> MAX_WEIGHT \<and> 0 \<le> streak p)
      (snd (quiz_loop fl lc rnd data prog cursor k ins))"
    unfolding list_all_iff .
qed

theorem weight_stays_in_bounds_witness:
  "(MIN_WEIGHT \<le> weight (default_entry [20320]) \<and> weight (default_entry [20320]) \<le> MAX_WEIGHT \<and>
      0 \<le> streak (default_entry [20320])) \<and>
   (let p' = fst (snd (run_quiz_for_item \<lparr>g_chinese_to_english = True, g_random_mode = False\<rparr>
                    ascii_lower
                    \<lparr>simplified = Some [20320], pinyin = Some (PinyinStr [110, 105, 51]),
                     english_concise = Some [121, 111, 117]\<rparr>
                    (default_entry [20320])
                    [([], 0), ([45, 104], 1.5), ([110, 105, 51], 2)]))
    in MIN_WEIGHT \<le> weight p' \<and> weight p' \<le> MAX_WEIGHT \<and> 0 \<le> streak p') \<and>
   list_all (\<lambda>p. MIN_WEIGHT \<le> weight p \<and> weight p \<le> MAX_WEIGHT \<and> 0 \<le> streak p)
     [default_entry [20320]] \<and>
   list_all (\<lambda>p. MIN_WEIGHT \<le> weight p \<and> weight p \<le> MAX_WEIGHT \<and> 0 \<le> streak p)
     (snd (quiz_loop \<lparr>g_chinese_to_english = True, g_random_mode = False\<rparr> ascii_lower
             (\<lambda>k. 0)
             [\<lparr>simplified = Some [20320], pinyin = Some (PinyinStr [110, 105, 51]),
               english_concise = Some [121, 111, 117]\<rparr>]
             [default_entry [20320]] 0 0
             [([], 0), ([45, 104], 1.5), ([110, 105, 51], 2), ([], 0), ([45, 115], 1)]))"
  using weight_stays_in_bounds
    [where p = "default_entry [20320]"
       and fl = "\<lparr>g_chinese_to_english = True, g_random_mode = False\<rparr>"
       and lc = ascii_lower
       and it = "\<lparr>simplified = Some [20320], pinyin = Some (PinyinStr [110, 105, 51]),
                  english_concise = Some [121, 111, 117]\<rparr>"
       and ins = "[([], 0), ([45, 104], 1.5), ([110, 105, 51], 2)]"]
    weight_stays_in_bounds
    [where prog = "[default_entry [20320]]"
       and fl = "\<lparr>g_chinese_to_english = True, g_random_mode = False\<rparr>"
       and lc = ascii_lower
       and rnd = "\<lambda>k. 0"
       and data = "[\<lparr>simplified = Some [20320], pinyin = Some (PinyinStr [110, 105, 51]),
                    english_concise = Some [121, 111, 117]\<rparr>]"
       and cursor = 0 and k = 0
       and ins = "[([], 0), ([45, 104], 1.5), ([110, 105, 51], 2), ([], 0), ([45, 115], 1)]"]
  by (simp add: default_entry_def MIN_WEIGHT_def MAX_WEIGHT_def)

subsection \<open>The outcomes of one turn\<close>

text \<open>
  A skip, for any record and any waiting time: the weight is raised by
  \<open>PENALTY_SKIP\<close> and capped, the streak is reset and the attempts are counted. The
  function returns before the part that updates the time statistics, so
  \<open>total_time\<close> and \<open>avg_time\<close> stay as they were.
\<close>

lemma skip_outcome:
  assumes "get_quiz_item_data fl lc it = Inr answer" and "lc (strip raw) = cmd_skip"
  shows "run_quiz_for_item fl lc it p (enter # (raw, e) # rest) =
           (Inr Skipped,
            p\<lparr>weight := min MAX_WEIGHT (weight p + PENALTY_SKIP), streak := 0,
              attempts := attempts p + 1\<rparr>,
            rest)"
  using assms by (simp add: run_quiz_for_item_def cmd_skip_def cmd_quit_def)

lemma answers_nonempty: "get_quiz_item_data fl lc it = Inr answer \<Longrightarrow> answer \<noteq> []"
  by (auto simp: get_quiz_item_data_def Let_def
        split: if_splits option.splits pinyin_value.splits list.splits)

lemma update_and_check_correct:
  assumes "check_answer fl inpt answer = Inr True" and "attempts p \<noteq> - 1"
  shows "update_and_check fl answer inpt e p =
     (Inr Correct,
      p\<lparr>weight := max MIN_WEIGHT (weight p -
             (REWARD_CORRECT + REWARD_STREAK * real_of_int (streak p + 1) +
              (if avg_time p > 0 \<and> e < avg_time p then REWARD_TIME else 0))),
        streak := streak p + 1,
        attempts := attempts p + 1,
        correct := correct p + 1,
        total_time := total_time p + e,
        avg_time := (total_time p + e) / real_of_int (attempts p + 1)\<rparr>)"
  using assms by (simp add: update_and_check_def Let_def)

lemma update_and_check_incorrect:
  assumes "check_answer fl inpt answer = Inr False" and "attempts p \<noteq> - 1"
  shows "update_and_check fl answer inpt e p =
     (Inr Incorrect,
      p\<lparr>weight := min MAX_WEIGHT (weight p + PENALTY_INCORRECT),
        streak := 0,
        attempts := attempts p + 1,
        total_time := total_time p + e,
        avg_time := (total_time p + e) / real_of_int (attempts p + 1)\<rparr>)"
  using assms by (simp add: update_and_check_def Let_def)

text \<open>
  An answered turn, right or wrong, leaves the average time equal to the total time
  over the attempts.
\<close>

lemma update_and_check_avg_time:
  assumes "update_and_check fl answer inpt e p = (Inr r, p')"
  shows "avg_time p' = total_time p' / real_of_int (attempts p')"
  using assms
  by (auto simp: update_and_check_def Let_def split: sum.splits if_splits)

text \<open>
  C1. The skip of the claim's example, on a record with some history: weight 5.0 and
  streak 3, two attempts, four seconds in total, two on average. After \<^verbatim>\<open>-s\<close>, typed
  after 1.5 seconds, the weight is 8.0, the streak 0 and the attempts 3, as the claim
  says; but \<open>total_time\<close> is still 4.0 and \<open>avg_time\<close> still 2.0, where the claim has
  5.5 and 5.5 / 3.
\<close>

theorem skip_keeps_time_stats:
  "run_quiz_for_item \<lparr>g_chinese_to_english = True, g_random_mode = True\<rparr> ascii_lower
     \<lparr>simplified = Some [20320], pinyin = Some (PinyinStr [110, 105, 51]),
      english_concise = Some [121, 111, 117]\<rparr>
     \<lparr>word = [20320], weight = 5, streak = 3, avg_time = 2, total_time = 4, attempts = 2,
      correct = 1\<rparr>
     [([], 0), ([45, 115], 1.5)] =
   (Inr Skipped,
    \<lparr>word = [20320], weight = 8, streak = 0, avg_time = 2, total_time = 4, attempts = 3,
     correct = 1\<rparr>,
    [])"
  by (simp add: run_quiz_for_item_def get_quiz_item_data_def strip_def isspace_def
        ascii_lower_def cmd_skip_def cmd_quit_def MAX_WEIGHT_def PENALTY_SKIP_def)

text \<open>
  C2. From a default record, a correct answer after 2.0 seconds and then a skip, in the
  quiz loop over a vocabulary of one item (the input ends after the skip). The record
  that is left has 2 attempts, a total time of 2.0 and an average time of 2.0, which is
  not 2.0 / 2.
\<close>

theorem avg_time_stale_after_skip:
  "quiz_loop \<lparr>g_chinese_to_english = True, g_random_mode = False\<rparr> ascii_lower (\<lambda>k. 0)
     [\<lparr>simplified = Some [20320], pinyin = Some (PinyinStr [110, 105, 51]),
       english_concise = Some [121, 111, 117]\<rparr>]
     [default_entry [20320]] 0 0
     [([], 0), ([110, 105, 51], 2.0), ([], 0), ([45, 115], 1.0)] =
   (Some EOFError,
    [\<lparr>word = [20320], weight = 10.0, streak = 0, avg_time = 2.0, total_time = 2.0,
      attempts = 2, correct = 1\<rparr>]) \<and>
   (2.0 :: real) \<noteq> 2.0 / real_of_int 2"
  by (simp add: quiz_loop.simps get_next_index_def run_quiz_for_item_def
        get_quiz_item_data_def remove_spaces_def ascii_lower_def strip_def isspace_def
        cmd_quit_def cmd_skip_def cmd_hint_def check_answer_def update_and_check_def
        default_entry_def MAX_WEIGHT_def MIN_WEIGHT_def REWARD_CORRECT_def
        REWARD_STREAK_def PENALTY_SKIP_def Let_def)

text \<open>
  C4. A correct answer at the first prompt (neither a command nor a hint), on a record
  whose attempts are not \<open>-1\<close> (the data model has them at least 0; at \<open>-1\<close> the
  final division raises). The streak, the attempts and the correct count go up by one,
  the waiting time is added to the total time, the weight goes down by
  \<open>REWARD_CORRECT + REWARD_STREAK * (streak + 1)\<close>, and by \<open>REWARD_TIME\<close> more exactly
  when the old average time is positive and the waiting time is below it, and is kept
  at \<open>MIN_WEIGHT\<close> or above; the new average time is the new total time over the new
  attempts.
\<close>

theorem correct_outcome:
  assumes "get_quiz_item_data fl lc it = Inr answer"
    and "lc (strip raw) \<noteq> cmd_quit" "lc (strip raw) \<noteq> cmd_skip" "lc (strip raw) \<noteq> cmd_hint"
    and "check_answer fl (lc (strip raw)) answer = Inr True"
    and "attempts p \<noteq> - 1"
  shows "run_quiz_for_item fl lc it p (enter # (raw, e) # rest) =
     (Inr Correct,
      p\<lparr>weight := max MIN_WEIGHT (weight p -
             (REWARD_CORRECT + REWARD_STREAK * real_of_int (streak p + 1) +
              (if avg_time p > 0 \<and> e < avg_time p then REWARD_TIME else 0))),
        streak := streak p + 1,
        attempts := attempts p + 1,
        correct := correct p + 1,
        total_time := total_time p + e,
        avg_time := (total_time p + e) / real_of_int (attempts p + 1)\<rparr>,
      rest)"
  using assms by (simp add: run_quiz_for_item_def update_and_check_correct)

text \<open>
  The example of the claim: the default record and 2.0 seconds give streak 1, weight
  8.75, one attempt, one correct answer, total time 2.0 and average time 2.0.
\<close>

theorem correct_outcome_witness:
  "get_quiz_item_data \<lparr>g_chinese_to_english = True, g_random_mode = True\<rparr> ascii_lower
      \<lparr>simplified = Some [20320], pinyin = Some (PinyinStr [110, 105, 51]),
       english_concise = Some [121, 111, 117]\<rparr> = Inr [[20320], [110, 105, 51]] \<and>
   ascii_lower (strip [78, 105, 51, 32]) \<noteq> cmd_quit \<and>
   ascii_lower (strip [78, 105, 51, 32]) \<noteq> cmd_skip \<and>
   ascii_lower (strip [78, 105, 51, 32]) \<noteq> cmd_hint \<and>
   check_answer \<lparr>g_chinese_to_english = True, g_random_mode = True\<rparr>
      (ascii_lower (strip [78, 105, 51, 32])) [[20320], [110, 105, 51]] = Inr True \<and>
   attempts (default_entry [20320]) \<noteq> - 1 \<and>
   run_quiz_for_item \<lparr>g_chinese_to_english = True, g_random_mode = True\<rparr> ascii_lower
      \<lparr>simplified = Some [20320], pinyin = Some (PinyinStr [110, 105, 51]),
       english_concise = Some [121, 111, 117]\<rparr>
      (default_entry [20320]) [([], 0), ([78, 105, 51, 32], 2.0)] =
     (Inr Correct,
      \<lparr>word = [20320], weight = 8.75, streak = 1, avg_time = 2.0, total_time = 2.0,
       attempts = 1, correct = 1\<rparr>,
      [])"
  using correct_outcome
    [where fl = "\<lparr>g_chinese_to_english = True, g_random_mode = True\<rparr>"
       and lc = ascii_lower
       and it = "\<lparr>simplified = Some [20320], pinyin = Some (PinyinStr [110, 105, 51]),
                  english_concise = Some [121, 111, 117]\<rparr>"
       and answer = "[[20320], [110, 105, 51]]"
       and raw = "[78, 105, 51, 32]"
       and p = "default_entry [20320]"
       and enter = "([], 0)" and e = "2.0" and rest = "[]"]
  by (simp add: get_quiz_item_data_def remove_spaces_def ascii_lower_def strip_def
        isspace_def cmd_quit_def cmd_skip_def cmd_hint_def check_answer_def
        default_entry_def MAX_WEIGHT_def MIN_WEIGHT_def REWARD_CORRECT_def
        REWARD_STREAK_def)

subsection \<open>Loading, merging and saving the progress\<close>

text \<open>
  The lookup table of \<open>load_progress\<close>: a word has no entry exactly when no stored
  object carries it, and otherwise its entry is the last stored object that carries it.
\<close>

lemma old_prog_map_Nil: "old_prog_map [] = Map.empty"
  by (simp add: old_prog_map_def)

lemma old_prog_map_snoc:
  "old_prog_map (old @ [e]) =
     (case e of WithWord r \<Rightarrow> (old_prog_map old)(word r \<mapsto> r) | NoWord \<Rightarrow> old_prog_map old)"
  by (cases e) (simp_all add: old_prog_map_def)

lemma old_prog_map_None:
  "old_prog_map old k = None \<longleftrightarrow> (\<forall>r. WithWord r \<in> set old \<longrightarrow> word r \<noteq> k)"
proof (induction old rule: rev_induct)
  case Nil
  then show ?case by (simp add: old_prog_map_Nil)
next
  case (snoc e old)
  show ?case
  proof (cases e)
    case (WithWord r0)
    then show ?thesis using snoc.IH by (auto simp: old_prog_map_snoc)
  next
    case NoWord
    then show ?thesis using snoc.IH by (auto simp: old_prog_map_snoc)
  qed
qed

lemma old_prog_map_Some:
  assumes "old_prog_map old k = Some r"
  shows "\<exists>pre post. old = pre @ WithWord r # post \<and> word r = k \<and>
            (\<forall>r'. WithWord r' \<in> set post \<longrightarrow> word r' \<noteq> k)"
  using assms
proof (induction old rule: rev_induct)
  case Nil
  then show ?case by (simp add: old_prog_map_Nil)
next
  case (snoc e old)
  show ?case
  proof (cases "\<exists>r0. e = WithWord r0 \<and> word r0 = k")
    case True
    then obtain r0 where e: "e = WithWord r0" "word r0 = k" by blast
    then have "r0 = r" using snoc.prems by (simp add: old_prog_map_snoc)
    then have "old @ [e] = old @ WithWord r # []" "word r = k" using e by simp_all
    then show ?thesis by (metis empty_iff empty_set)
  next
    case False
    then have "old_prog_map old k = Some r"
      using snoc.prems by (cases e) (auto simp: old_prog_map_snoc split: if_splits)
    from snoc.IH [OF this] obtain pre post where
      split: "old = pre @ WithWord r # post" "word r = k"
        "\<forall>r'. WithWord r' \<in> set post \<longrightarrow> word r' \<noteq> k"
      by blast
    have "old @ [e] = pre @ WithWord r # (post @ [e])" using split(1) by simp
    moreover have "\<forall>r'. WithWord r' \<in> set (post @ [e]) \<longrightarrow> word r' \<noteq> k"
      using split(3) False by auto
    ultimately show ?thesis using split(2) by blast
  qed
qed





lemma old_prog_map_distinct:
  assumes "distinct (map word ps)" and "r \<in> set ps"
  shows "old_prog_map (map WithWord ps) (word r) = Some r"
proof (cases "old_prog_map (map WithWord ps) (word r)")
  case None
  then show ?thesis using assms(2) by (auto simp: old_prog_map_None)
next
  case (Some r')
  from old_prog_map_Some [OF Some] obtain pre post where
    eq: "map WithWord ps = pre @ WithWord r' # post" and "word r' = word r"
    by blast
  have "WithWord r' \<in> set (map WithWord ps)" unfolding eq by simp
  then have "r' \<in> set ps" by auto
  moreover have "inj_on word (set ps)" using assms(1) by (simp add: distinct_map)
  ultimately have "r' = r" using \<open>word r' = word r\<close> assms(2) by (auto dest: inj_onD)
  then show ?thesis using Some by simp
qed

text \<open>
  C7. Saving a progress list and loading it back against the same vocabulary gives the
  list back, record for record and field for field. The list is a valid one: its
  records carry the words of the vocabulary items, in order, and no word twice. The
  words are arbitrary strings of code points. (With a word twice, both positions would
  load the later of the two records.)
\<close>

theorem save_load_round_trip:
  assumes "map word ps = map word_char data" and "distinct (map word ps)"
  shows "load_progress data (save_progress ps Written st) = Inr ps"
proof -
  have len: "length data = length ps" using assms(1) by (metis length_map)
  have "map (\<lambda>w. case old_prog_map (map WithWord ps) (word_char w) of
                    Some r \<Rightarrow> r | None \<Rightarrow> default_entry (word_char w)) data = ps"
  proof (rule nth_equalityI)
    show "length (map (\<lambda>w. case old_prog_map (map WithWord ps) (word_char w) of
                    Some r \<Rightarrow> r | None \<Rightarrow> default_entry (word_char w)) data) = length ps"
      using len by simp
  next
    fix i
    assume "i < length (map (\<lambda>w. case old_prog_map (map WithWord ps) (word_char w) of
                    Some r \<Rightarrow> r | None \<Rightarrow> default_entry (word_char w)) data)"
    then have i: "i < length data" "i < length ps" using len by simp_all
    have "word_char (data ! i) = word (ps ! i)"
      using assms(1) i by (metis nth_map)
    moreover have "old_prog_map (map WithWord ps) (word (ps ! i)) = Some (ps ! i)"
      using old_prog_map_distinct [OF assms(2)] i(2) by simp
    ultimately show "map (\<lambda>w. case old_prog_map (map WithWord ps) (word_char w) of
                    Some r \<Rightarrow> r | None \<Rightarrow> default_entry (word_char w)) data ! i = ps ! i"
      using i(1) by simp
  qed
  then show ?thesis by (simp add: load_progress_def save_progress_def)
qed

text \<open>
  A list of two records, one under the Chinese character U+4F60, one under the
  placeholder \<^verbatim>\<open>N/A\<close> of an item without a written form.
\<close>

theorem save_load_round_trip_witness:
  "map word [\<lparr>word = [20320], weight = 3.5, streak = 2, avg_time = 4, total_time = 8,
              attempts = 2, correct = 2\<rparr>,
             \<lparr>word = [78, 47, 65], weight = 10.0, streak = 0, avg_time = 0, total_time = 0,
              attempts = 0, correct = 0\<rparr>] =
   map word_char [\<lparr>simplified = Some [20320], pinyin = None, english_concise = None\<rparr>,
                  \<lparr>simplified = None, pinyin = None, english_concise = None\<rparr>] \<and>
   distinct (map word [\<lparr>word = [20320], weight = 3.5, streak = 2, avg_time = 4,
                        total_time = 8, attempts = 2, correct = 2\<rparr>,
                       \<lparr>word = [78, 47, 65], weight = 10.0, streak = 0, avg_time = 0,
                        total_time = 0, attempts = 0, correct = 0\<rparr>]) \<and>
   load_progress [\<lparr>simplified = Some [20320], pinyin = None, english_concise = None\<rparr>,
                  \<lparr>simplified = None, pinyin = None, english_concise = None\<rparr>]
     (save_progress [\<lparr>word = [20320], weight = 3.5, streak = 2, avg_time = 4, total_time = 8,
                      attempts = 2, correct = 2\<rparr>,
                     \<lparr>word = [78, 47, 65], weight = 10.0, streak = 0, avg_time = 0,
                      total_time = 0, attempts = 0, correct = 0\<rparr>] Written NoFile) =
   Inr [\<lparr>word = [20320], weight = 3.5, streak = 2, avg_time = 4, total_time = 8,
         attempts = 2, correct = 2\<rparr>,
        \<lparr>word = [78, 47, 65], weight = 10.0, streak = 0, avg_time = 0, total_time = 0,
         attempts = 0, correct = 0\<rparr>]"
  using save_load_round_trip
    [of "[\<lparr>word = [20320], weight = 3.5, streak = 2, avg_time = 4, total_time = 8,
           attempts = 2, correct = 2\<rparr>,
          \<lparr>word = [78, 47, 65], weight = 10.0, streak = 0, avg_time = 0, total_time = 0,
           attempts = 0, correct = 0\<rparr>]"
        "[\<lparr>simplified = Some [20320], pinyin = None, english_concise = None\<rparr>,
          \<lparr>simplified = None, pinyin = None, english_concise = None\<rparr>]"
        NoFile]
  by (simp add: word_char_def N_A_def)

subsection \<open>Selection on an empty vocabulary\<close>

lemma length_accumulate: "length (accumulate ws acc) = length ws"
  by (induction ws arbitrary: acc) simp_all

text \<open>
  C8. In weighted-random mode, selection over a vocabulary of size 0 raises instead of
  returning an index: \<^verbatim>\<open>random.choices\<close> raises \<^verbatim>\<open>IndexError\<close> on the empty
  population (and \<^verbatim>\<open>ValueError\<close> should the progress list not be empty). The quiz
  loop ends with that exception at its first step: no item is presented, no line is
  read and the progress list is as it was.
\<close>

theorem empty_corpus_fails:
  assumes "g_random_mode fl"
  shows "get_next_index fl 0 prog cursor u =
           Inl (if prog = [] then IndexError else ValueError) \<and>
         quiz_loop fl lc rnd [] prog cursor k ins =
           (Some (if prog = [] then IndexError else ValueError), prog)"
proof -
  have choice: "random_choices [0..<0] (map weight prog) v =
          Inl (if prog = [] then IndexError else ValueError)" for v
    by (cases prog) (simp_all add: random_choices_def length_accumulate Let_def)
  have idx: "get_next_index fl 0 prog cursor v =
           Inl (if prog = [] then IndexError else ValueError)" for v
    unfolding get_next_index_def choice using assms by simp
  show ?thesis using idx [of u] idx [of "rnd k"] by (simp add: quiz_loop_raise)
qed

theorem empty_corpus_fails_witness:
  "g_random_mode \<lparr>g_chinese_to_english = True, g_random_mode = True\<rparr> \<and>
   get_next_index \<lparr>g_chinese_to_english = True, g_random_mode = True\<rparr> 0 [] 0 0.5 =
     Inl IndexError \<and>
   quiz_loop \<lparr>g_chinese_to_english = True, g_random_mode = True\<rparr> ascii_lower
     (\<lambda>k. 0.5) [] [] 0 0 [([], 0), ([45, 113], 1)] = (Some IndexError, [])"
  using empty_corpus_fails
    [of "\<lparr>g_chinese_to_english = True, g_random_mode = True\<rparr>" "[]" 0 "0.5" ascii_lower
        "\<lambda>k. 0.5" 0 "[([], 0), ([45, 113], 1)]"]
  by simp

subsection \<open>Grading\<close>

text \<open>
  C6. The two directions of \<open>check_answer\<close>. From Chinese to English
  (\<^verbatim>\<open>g_chinese_to_english\<close>, the answer is typed in characters or pinyin), an answer is
  right exactly when it is equal to one of the accepted answers, and these are the
  lowercased written form and the lowercased pinyin without spaces. In the other
  direction the only accepted answer is the lowercased concise translation, and an
  answer is right exactly when it occurs in it as a contiguous part. The answer that
  \<open>run_quiz_for_item\<close> grades is the typed line, stripped and lowercased.
\<close>

theorem check_answer_directions:
  "(g_chinese_to_english fl \<longrightarrow>
      check_answer fl inp answers = Inr (inp \<in> set answers) \<and>
      (get_quiz_item_data fl lc it = Inr answers \<longrightarrow>
         (\<exists>py. answers = [lc (case simplified it of None \<Rightarrow> [] | Some s \<Rightarrow> s),
                           lc (remove_spaces py)]))) \<and>
   (\<not> g_chinese_to_english fl \<longrightarrow>
      get_quiz_item_data fl lc it =
        Inr [lc (case english_concise it of None \<Rightarrow> N_A | Some s \<Rightarrow> s)] \<and>
      check_answer fl inp (a # others) = Inr (\<exists>pre suf. a = pre @ inp @ suf))"
  by (auto simp: check_answer_def get_quiz_item_data_def str_contains_iff Let_def
        split: option.splits pinyin_value.splits list.splits)

text \<open>
  Both directions at work: \<^verbatim>\<open>ni3\<close> is accepted and \<^verbatim>\<open>ni\<close> is not, where equality
  decides; \<^verbatim>\<open>ou\<close> is accepted for the translation \<^verbatim>\<open>You\<close>, lowercased to
  \<^verbatim>\<open>you\<close>, where containment decides.
\<close>

theorem check_answer_directions_witness:
  "g_chinese_to_english \<lparr>g_chinese_to_english = True, g_random_mode = True\<rparr> \<and>
   check_answer \<lparr>g_chinese_to_english = True, g_random_mode = True\<rparr> [110, 105, 51]
     [[20320], [110, 105, 51]] = Inr True \<and>
   check_answer \<lparr>g_chinese_to_english = True, g_random_mode = True\<rparr> [110, 105]
     [[20320], [110, 105, 51]] = Inr False \<and>
   \<not> g_chinese_to_english \<lparr>g_chinese_to_english = False, g_random_mode = True\<rparr> \<and>
   get_quiz_item_data \<lparr>g_chinese_to_english = False, g_random_mode = True\<rparr> ascii_lower
     \<lparr>simplified = Some [20320], pinyin = Some (PinyinStr [110, 105, 51]),
      english_concise = Some [89, 111, 117]\<rparr> = Inr [[121, 111, 117]] \<and>
   check_answer \<lparr>g_chinese_to_english = False, g_random_mode = True\<rparr> [111, 117]
     [[121, 111, 117]] = Inr True"
proof -
  let ?c2e = "\<lparr>g_chinese_to_english = True, g_random_mode = True\<rparr>"
  let ?e2c = "\<lparr>g_chinese_to_english = False, g_random_mode = True\<rparr>"
  let ?it = "\<lparr>simplified = Some [20320], pinyin = Some (PinyinStr [110, 105, 51]),
              english_concise = Some [89, 111, 117]\<rparr>"
  have "check_answer ?c2e [110, 105, 51] [[20320], [110, 105, 51]] = Inr True"
    using check_answer_directions [of ?c2e "[110, 105, 51]" "[[20320], [110, 105, 51]]"]
    by simp
  moreover have "check_answer ?c2e [110, 105] [[20320], [110, 105, 51]] = Inr False"
    using check_answer_directions [of ?c2e "[110, 105]" "[[20320], [110, 105, 51]]"]
    by simp
  moreover have "get_quiz_item_data ?e2c ascii_lower ?it = Inr [[121, 111, 117]]"
    using check_answer_directions [of ?e2c _ _ ascii_lower ?it]
    by (simp add: ascii_lower_def)
  moreover have "check_answer ?e2c [111, 117] [[121, 111, 117]] = Inr True"
  proof -
    have inst: "check_answer ?e2c [111, 117] [[121, 111, 117]] =
            Inr (\<exists>pre suf. [121, 111, 117 :: nat] = pre @ [111, 117] @ suf)"
      using check_answer_directions [of ?e2c "[111, 117]" _ _ _ "[121, 111, 117]" "[]"]
      by (simp only: flags.simps simp_thms)
    have ex: "\<exists>pre suf. [121, 111, 117 :: nat] = pre @ [111, 117] @ suf"
      by (intro exI [of _ "[121]"] exI [of _ "[]"]) simp
    show ?thesis unfolding inst by (simp only: ex)
  qed
  ultimately show ?thesis by simp
qed

lemma update_and_check_empty:
  assumes "\<not> g_chinese_to_english fl" and "get_quiz_item_data fl lc it = Inr answer"
    and "attempts p \<noteq> - 1"
  shows "fst (update_and_check fl answer [] e p) = Inr Correct"
proof -
  obtain a where "answer = [a]"
    using assms(1,2) by (auto simp: get_quiz_item_data_def)
  moreover have "str_contains a []" by (cases a) simp_all
  ultimately have "check_answer fl [] answer = Inr True"
    using assms(1) by (simp add: check_answer_def)
  then show ?thesis using assms(3) by (simp add: update_and_check_correct)
qed

text \<open>
  C9. From English to Chinese, a line of whitespace only is graded as a correct
  answer, for every item: the stripped line is empty, and the empty string occurs in
  every string. This holds at the first prompt and at the prompt after a hint. The
  lowercasing maps the empty string to itself, and the attempts of the record are not
  \<open>-1\<close> (there the final division raises after the grading).
\<close>

theorem empty_answer_graded_correct:
  assumes "\<not> g_chinese_to_english fl" and "list_all isspace raw" and "lc [] = []"
    and "attempts p \<noteq> - 1"
  shows "fst (run_quiz_for_item fl lc it p (enter # (raw, e) # rest)) = Inr Correct \<and>
         (lc (strip raw0) = cmd_hint \<longrightarrow>
            fst (run_quiz_for_item fl lc it p (enter # (raw0, e0) # (raw, e) # rest)) =
              Inr Correct)"
proof -
  obtain answer where answer: "get_quiz_item_data fl lc it = Inr answer"
    using assms(1) by (simp add: get_quiz_item_data_def)
  have inpt: "lc (strip raw) = []"
    using assms(2,3) by (simp add: strip_whitespace_only)
  have direct: "fst (update_and_check fl answer [] e p) = Inr Correct"
    using update_and_check_empty [OF assms(1) answer assms(4)] .
  have hinted: "fst (update_and_check fl answer [] (e0 + e)
                  (p\<lparr>weight := min MAX_WEIGHT (weight p + PENALTY_HINT)\<rparr>)) = Inr Correct"
    using update_and_check_empty [OF assms(1) answer, of _ "e0 + e"] assms(4) by simp
  show ?thesis
    using answer inpt direct hinted
    by (auto simp: run_quiz_for_item_def cmd_quit_def cmd_skip_def cmd_hint_def
          split: prod.splits)
qed

text \<open>
  A space and an ideographic space (U+3000), typed at the first prompt and typed after
  the hint command \<^verbatim>\<open>-H\<close>.
\<close>

theorem empty_answer_graded_correct_witness:
  "\<not> g_chinese_to_english \<lparr>g_chinese_to_english = False, g_random_mode = True\<rparr> \<and>
   list_all isspace [32, 12288] \<and>
   ascii_lower [] = [] \<and>
   attempts (default_entry [20320]) \<noteq> - 1 \<and>
   ascii_lower (strip [45, 72]) = cmd_hint \<and>
   fst (run_quiz_for_item \<lparr>g_chinese_to_english = False, g_random_mode = True\<rparr> ascii_lower
          \<lparr>simplified = Some [20320], pinyin = Some (PinyinStr [110, 105, 51]),
           english_concise = Some [89, 111, 117]\<rparr>
          (default_entry [20320]) [([], 0), ([32, 12288], 1.5)]) = Inr Correct \<and>
   fst (run_quiz_for_item \<lparr>g_chinese_to_english = False, g_random_mode = True\<rparr> ascii_lower
          \<lparr>simplified = Some [20320], pinyin = Some (PinyinStr [110, 105, 51]),
           english_concise = Some [89, 111, 117]\<rparr>
          (default_entry [20320]) [([], 0), ([45, 72], 1), ([32, 12288], 1.5)]) = Inr Correct"
  using empty_answer_graded_correct
    [where fl = "\<lparr>g_chinese_to_english = False, g_random_mode = True\<rparr>"
       and raw = "[32, 12288]" and lc = ascii_lower and p = "default_entry [20320]"
       and it = "\<lparr>simplified = Some [20320], pinyin = Some (PinyinStr [110, 105, 51]),
                  english_concise = Some [89, 111, 117]\<rparr>"
       and enter = "([], 0)" and e = "1.5" and rest = "[]" and raw0 = "[45, 72]" and e0 = 1]
  by (simp add: isspace_def ascii_lower_def default_entry_def strip_def cmd_hint_def)

subsection \<open>Turns with a hint\<close>

lemma item_data_raises:
  "get_quiz_item_data fl lc it = Inl err \<Longrightarrow>
     run_quiz_for_item fl lc it p (enter # later) = (Inl err, p, later)"
  by (simp add: run_quiz_for_item_def)

lemma hint_outcome:
  assumes "get_quiz_item_data fl lc it = Inr answer" and "lc (strip raw) = cmd_hint"
  shows "run_quiz_for_item fl lc it p (enter # (raw, e) # (raw', e') # rest) =
           (fst (update_and_check fl answer (lc (strip raw')) (e + e')
                   (p\<lparr>weight := min MAX_WEIGHT (weight p + PENALTY_HINT)\<rparr>)),
            snd (update_and_check fl answer (lc (strip raw')) (e + e')
                   (p\<lparr>weight := min MAX_WEIGHT (weight p + PENALTY_HINT)\<rparr>)),
            rest)"
    and "run_quiz_for_item fl lc it p [enter, (raw, e)] =
           (Inl EOFError, p\<lparr>weight := min MAX_WEIGHT (weight p + PENALTY_HINT)\<rparr>, [])"
  using assms
  by (simp_all add: run_quiz_for_item_def cmd_quit_def cmd_skip_def cmd_hint_def
        split: prod.splits)

lemma update_and_check_no_command:
  "fst (update_and_check fl ans inpt t q) \<noteq> Inr Skipped \<and>
   fst (update_and_check fl ans inpt t q) \<noteq> Inr Quit"
  by (simp add: update_and_check_def Let_def split: sum.splits)

lemma update_and_check_graded:
  assumes "get_quiz_item_data fl lc it = Inr answer" and "attempts q \<noteq> - 1"
  shows "fst (update_and_check fl answer inpt t q) =
        Inr (if check_answer fl inpt answer = Inr True then Correct else Incorrect)"
proof -
  have "answer \<noteq> []" using assms(1) by (rule answers_nonempty)
  then have "\<exists>ok. check_answer fl inpt answer = Inr ok"
    by (cases answer) (simp_all add: check_answer_def)
  then obtain ok where "check_answer fl inpt answer = Inr ok" by blast
  then show ?thesis
    using assms(2)
    by (cases ok) (simp_all add: update_and_check_correct update_and_check_incorrect)
qed

text \<open>
  C10. A turn whose first line is the hint command never ends as skipped or quit: with
  nothing typed after the hint, with anything typed after it, and for an item whose
  answers cannot be built. When the answers can be built and the attempts are not
  \<open>-1\<close>, the turn ends as correct or incorrect, and which of the two is decided by
  grading the second line as an answer, also when that line is \<^verbatim>\<open>-s\<close> or \<^verbatim>\<open>-q\<close>.
\<close>

theorem hinted_turn_outcome:
  assumes "lc (strip raw) = cmd_hint"
  shows "fst (run_quiz_for_item fl lc it p (enter # (raw, e) # later)) \<noteq> Inr Skipped \<and>
         fst (run_quiz_for_item fl lc it p (enter # (raw, e) # later)) \<noteq> Inr Quit \<and>
         (get_quiz_item_data fl lc it = Inr answer \<longrightarrow> attempts p \<noteq> - 1 \<longrightarrow>
            fst (run_quiz_for_item fl lc it p (enter # (raw, e) # (raw', e') # rest)) =
              Inr (if check_answer fl (lc (strip raw')) answer = Inr True
                   then Correct else Incorrect))"
proof (intro conjI impI)
  show "fst (run_quiz_for_item fl lc it p (enter # (raw, e) # (raw', e') # rest)) =
          Inr (if check_answer fl (lc (strip raw')) answer = Inr True
               then Correct else Incorrect)"
    if "get_quiz_item_data fl lc it = Inr answer" "attempts p \<noteq> - 1"
    using hint_outcome(1) [OF that(1) assms] update_and_check_graded [OF that(1), of
        "p\<lparr>weight := min MAX_WEIGHT (weight p + PENALTY_HINT)\<rparr>"] that(2)
    by simp
  have "fst (run_quiz_for_item fl lc it p (enter # (raw, e) # later)) \<noteq> Inr Skipped \<and>
        fst (run_quiz_for_item fl lc it p (enter # (raw, e) # later)) \<noteq> Inr Quit"
  proof (cases "get_quiz_item_data fl lc it")
    case (Inl err)
    then show ?thesis by (simp add: item_data_raises)
  next
    case (Inr ans)
    show ?thesis
    proof (cases later)
      case Nil
      then show ?thesis using hint_outcome(2) [OF Inr assms] by simp
    next
      case (Cons second rest')
      obtain raw2 e2 where "second = (raw2, e2)" by (cases second)
      then show ?thesis
        using Cons hint_outcome(1) [OF Inr assms] update_and_check_no_command by simp
    qed
  qed
  then show "fst (run_quiz_for_item fl lc it p (enter # (raw, e) # later)) \<noteq> Inr Skipped"
    and "fst (run_quiz_for_item fl lc it p (enter # (raw, e) # later)) \<noteq> Inr Quit"
    by simp_all
qed

text \<open>
  The hint command typed as \<^verbatim>\<open>-H\<close> with a trailing space, then \<^verbatim>\<open>-s\<close>: the turn
  ends as incorrect, not as skipped.
\<close>

theorem hinted_turn_outcome_witness:
  "ascii_lower (strip [45, 72, 32]) = cmd_hint \<and>
   get_quiz_item_data \<lparr>g_chinese_to_english = True, g_random_mode = True\<rparr> ascii_lower
     \<lparr>simplified = Some [20320], pinyin = Some (PinyinStr [110, 105, 51]),
      english_concise = Some [89, 111, 117]\<rparr> = Inr [[20320], [110, 105, 51]] \<and>
   attempts (default_entry [20320]) \<noteq> - 1 \<and>
   check_answer \<lparr>g_chinese_to_english = True, g_random_mode = True\<rparr>
     (ascii_lower (strip [45, 115])) [[20320], [110, 105, 51]] = Inr False \<and>
   fst (run_quiz_for_item \<lparr>g_chinese_to_english = True, g_random_mode = True\<rparr> ascii_lower
          \<lparr>simplified = Some [20320], pinyin = Some (PinyinStr [110, 105, 51]),
           english_concise = Some [89, 111, 117]\<rparr>
          (default_entry [20320]) [([], 0), ([45, 72, 32], 1), ([45, 115], 2)]) = Inr Incorrect"
  using hinted_turn_outcome
    [where lc = ascii_lower and raw = "[45, 72, 32]"
       and fl = "\<lparr>g_chinese_to_english = True, g_random_mode = True\<rparr>"
       and it = "\<lparr>simplified = Some [20320], pinyin = Some (PinyinStr [110, 105, 51]),
                  english_concise = Some [89, 111, 117]\<rparr>"
       and p = "default_entry [20320]" and enter = "([], 0)" and e = 1
       and answer = "[[20320], [110, 105, 51]]" and raw' = "[45, 115]" and e' = 2
       and rest = "[]" and later = "[([45, 115], 2)]"]
  by (simp add: ascii_lower_def strip_def isspace_def cmd_hint_def get_quiz_item_data_def
        remove_spaces_def default_entry_def check_answer_def)

end
